theory Spec2Isabelle
  imports Complex_Main "HOL-Library.Sublist"
begin

section \<open>JavaScript values\<close>

text \<open>
  The client is TypeScript; at run time every payload it receives is an untyped
  JavaScript value. Values are the JSON values plus \<open>undefined\<close>. An object is the list
  of its own properties, one entry per key. Numbers are values of a type \<open>'n\<close> that the
  model does not look into (IEEE doubles on the platform): the client only tests a number
  for truthiness and turns it into a string, and both are functions of the platform.
  Strings are lists of characters, the text being ASCII.
\<close>

datatype 'n jsval =
    JUndefined
  | JNull
  | JBool bool
  | JNum 'n
  | JStr string
  | JArr "'n jsval list"
  | JObj "(string \<times> 'n jsval) list"

text \<open>
  What a \<open>throw\<close> or a rejected promise carries. \<open>Error msg\<close> is \<open>new Error(msg)\<close>; the
  others are the platform's error classes, their messages left out.
\<close>

datatype js_error = Error string | TypeError | SyntaxError | RangeError | AbortError | NetworkError

text \<open>
  Exceptions are values: a computation that may throw returns \<open>js_error + 'a\<close>, and
  \<open>and_then\<close> runs the rest only when nothing was thrown.
\<close>

definition and_then :: "js_error + 'a \<Rightarrow> ('a \<Rightarrow> js_error + 'b) \<Rightarrow> js_error + 'b" where
  "and_then r f = (case r of Inl e \<Rightarrow> Inl e | Inr v \<Rightarrow> f v)"

fun all_results :: "(js_error + 'a) list \<Rightarrow> js_error + 'a list" where
  "all_results [] = Inr []"
| "all_results (r # rs) =
     and_then r (\<lambda>x. and_then (all_results rs) (\<lambda>xs. Inr (x # xs)))"

text \<open>
  What the client uses of the platform: \<open>JSON.parse\<close> (\<open>None\<close> is its SyntaxError);
  whether a number is truthy (it is neither zero nor NaN); the string of a number
  (\<open>Number.prototype.toString\<close>); and \<open>new Date(created * 1000).toISOString()\<close>, which
  throws on an invalid date.
\<close>

record 'n Platform =
  JSON_parse :: "string \<Rightarrow> 'n jsval option"
  truthy_number :: "'n \<Rightarrow> bool"
  number_string :: "'n \<Rightarrow> string"
  toISOString :: "'n jsval \<Rightarrow> js_error + string"

text \<open>Truthiness, as \<open>if (v)\<close>, \<open>v ? a : b\<close> and \<open>v || w\<close> test it.\<close>

fun truthy :: "'n Platform \<Rightarrow> 'n jsval \<Rightarrow> bool" where
  "truthy P JUndefined = False"
| "truthy P JNull = False"
| "truthy P (JBool b) = b"
| "truthy P (JNum n) = truthy_number P n"
| "truthy P (JStr s) = (s \<noteq> [])"
| "truthy P (JArr xs) = True"
| "truthy P (JObj kvs) = True"

definition js_or :: "'n Platform \<Rightarrow> 'n jsval \<Rightarrow> 'n jsval \<Rightarrow> 'n jsval" where
  "js_or P a b = (if truthy P a then a else b)"

definition nullish :: "'n jsval \<Rightarrow> bool" where
  "nullish v = (v = JUndefined \<or> v = JNull)"

text \<open>
  \<open>v.k\<close> for the property names the client reads (\<open>message\<close>, \<open>content\<close>, \<open>choices\<close>,
  \<open>delta\<close>, \<open>models\<close>, \<open>data\<close>, \<open>id\<close>, \<open>created\<close>, \<open>error\<close>): none of them is a property of
  a primitive's or an array's prototype, so only an object can hold one. Reading a
  property of \<open>undefined\<close> or \<open>null\<close> throws a TypeError.
\<close>

fun get_prop :: "'n jsval \<Rightarrow> string \<Rightarrow> js_error + 'n jsval" where
  "get_prop JUndefined k = Inl TypeError"
| "get_prop JNull k = Inl TypeError"
| "get_prop (JObj kvs) k = Inr (case map_of kvs k of None \<Rightarrow> JUndefined | Some v \<Rightarrow> v)"
| "get_prop v k = Inr JUndefined"

text \<open>\<open>v[0]\<close>: the first element of an array, the first character of a string.\<close>

fun get_index0 :: "'n jsval \<Rightarrow> js_error + 'n jsval" where
  "get_index0 JUndefined = Inl TypeError"
| "get_index0 JNull = Inl TypeError"
| "get_index0 (JArr xs) = Inr (case xs of [] \<Rightarrow> JUndefined | x # _ \<Rightarrow> x)"
| "get_index0 (JStr s) = Inr (case s of [] \<Rightarrow> JUndefined | c # _ \<Rightarrow> JStr [c])"
| "get_index0 (JObj kvs) = Inr (case map_of kvs ''0'' of None \<Rightarrow> JUndefined | Some v \<Rightarrow> v)"
| "get_index0 v = Inr JUndefined"

text \<open>Optional chaining \<open>v?.k\<close> and \<open>v?.[0]\<close>: \<open>undefined\<close> when \<open>v\<close> is nullish.\<close>

definition opt_prop :: "'n jsval \<Rightarrow> string \<Rightarrow> 'n jsval" where
  "opt_prop v k = (if nullish v then JUndefined
                   else (case get_prop v k of Inl e \<Rightarrow> JUndefined | Inr w \<Rightarrow> w))"

definition opt_index0 :: "'n jsval \<Rightarrow> 'n jsval" where
  "opt_index0 v = (if nullish v then JUndefined
                   else (case get_index0 v of Inl e \<Rightarrow> JUndefined | Inr w \<Rightarrow> w))"

text \<open>\<open>xs.join(',')\<close> on the strings of the elements.\<close>

fun join_with :: "string \<Rightarrow> string list \<Rightarrow> string" where
  "join_with sep [] = []"
| "join_with sep [x] = x"
| "join_with sep (x # y # ys) = x @ sep @ join_with sep (y # ys)"

text \<open>
  The conversion to a string that \<open>content += chunk\<close> and \<open>new Error(message)\<close> apply to a
  value. An array is joined, a nullish element giving the empty string. An object has the
  methods of \<open>Object.prototype\<close>, and its string is \<open>[object Object]\<close>, unless it has an
  own property \<open>toString\<close>: that property is a JSON value, no function, the inherited
  \<open>valueOf\<close> returns the object itself, and the conversion throws a TypeError.
\<close>

fun ToString :: "'n Platform \<Rightarrow> 'n jsval \<Rightarrow> js_error + string" where
  "ToString P JUndefined = Inr ''undefined''"
| "ToString P JNull = Inr ''null''"
| "ToString P (JBool b) = Inr (if b then ''true'' else ''false'')"
| "ToString P (JNum n) = Inr (number_string P n)"
| "ToString P (JStr s) = Inr s"
| "ToString P (JArr xs) =
     and_then (all_results (map (\<lambda>x. if nullish x then Inr [] else ToString P x) xs))
       (\<lambda>strs. Inr (join_with '','' strs))"
| "ToString P (JObj kvs) =
     (if map_of kvs ''toString'' = None then Inr ''[object Object]'' else Inl TypeError)"

text \<open>The decimal digits of a natural number, as \<open>`${response.status}`\<close> prints a status.\<close>

fun dec_nat :: "nat \<Rightarrow> string" where
  "dec_nat n = (if n < 10 then [char_of (48 + n)]
                else dec_nat (n div 10) @ [char_of (48 + n mod 10)])"

declare dec_nat.simps [simp del]

section \<open>Settings and endpoint resolution (api/ai-client.ts)\<close>

text \<open>
  The fields of \<open>OllamaSettings\<close> that the client reads. The others (temperature,
  maxTokens, contextLines, streamingEnabled, focusModeHotkey, quickActions, chatHistory)
  are read by the user interface only.
\<close>

record OllamaSettings =
  apiEndpoint :: string
  apiKey :: string
  model :: string

text \<open>
  The strings' methods. \<open>trim\<close> removes white space at both ends (the ASCII white space:
  tab, line feed, vertical tab, form feed, carriage return, space);
  \<open>s.includes(t)\<close> is \<open>sublist t s\<close>, \<open>s.startsWith(t)\<close> is \<open>prefix t s\<close>,
  \<open>s.slice(0, -1)\<close> is \<open>butlast s\<close>.
\<close>

definition is_ws :: "char \<Rightarrow> bool" where
  "is_ws c = (c \<in> set [CHR 0x09, CHR 0x0A, CHR 0x0B, CHR 0x0C, CHR 0x0D, CHR '' ''])"

definition trim :: "string \<Rightarrow> string" where
  "trim s = rev (dropWhile is_ws (rev (dropWhile is_ws s)))"

definition endsWith :: "string \<Rightarrow> string \<Rightarrow> bool" where
  "endsWith s t = suffix t s"

text \<open>\<open>_isOllama\<close>, \<open>_getBaseUrl\<close>, \<open>_getChatEndpoint\<close>, \<open>_getModelsEndpoint\<close>.\<close>

definition isOllama :: "OllamaSettings \<Rightarrow> bool" where
  "isOllama s = (sublist ''localhost'' (apiEndpoint s) \<or>
                 sublist ''127.0.0.1'' (apiEndpoint s) \<or>
                 sublist ''11434'' (apiEndpoint s))"

definition getBaseUrl :: "OllamaSettings \<Rightarrow> string" where
  "getBaseUrl s =
     (let url = trim (apiEndpoint s)
      in if endsWith url ''/'' then butlast url else url)"

definition getChatEndpoint :: "OllamaSettings \<Rightarrow> string" where
  "getChatEndpoint s =
     (let base = getBaseUrl s
      in if isOllama s then base @ ''/api/chat''
         else if sublist ''/v1'' base then base @ ''/chat/completions''
         else base @ ''/v1/chat/completions'')"

definition getModelsEndpoint :: "OllamaSettings \<Rightarrow> string" where
  "getModelsEndpoint s =
     (let base = getBaseUrl s
      in if isOllama s then base @ ''/api/tags''
         else if sublist ''/v1'' base then base @ ''/models''
         else base @ ''/v1/models'')"

section \<open>The streaming decoder (api/ai-client.ts, \<open>_processStream\<close>)\<close>

text \<open>
  A response of the transport. \<open>status\<close> is the HTTP status, an integer from 0 to 999;
  \<open>json\<close> is what \<open>response.json()\<close> settles to. \<open>body\<close> is \<open>None\<close> when
  \<open>response.body\<close> is null; otherwise it holds what the reader delivers: the chunks, each
  already decoded to text by \<open>TextDecoder.decode\<close>, and the error of the \<open>read()\<close> that
  fails, if one does.
\<close>

record 'n Response =
  ok :: bool
  status :: nat
  json :: "js_error + 'n jsval"
  body :: "(string list \<times> js_error option) option"

text \<open>\<open>text.split('\n')\<close>: the pieces between line feeds, also the empty ones.\<close>

fun split_nl :: "string \<Rightarrow> string list" where
  "split_nl [] = [[]]"
| "split_nl (c # cs) =
     (if c = CHR 0x0A then [] # split_nl cs
      else (case split_nl cs of [] \<Rightarrow> [[c]] | l # ls \<Rightarrow> (c # l) # ls))"

text \<open>\<open>text.split('\n').filter(line => line.trim())\<close>: a non-empty string is truthy.\<close>

definition chunk_lines :: "string \<Rightarrow> string list" where
  "chunk_lines text = filter (\<lambda>line. trim line \<noteq> []) (split_nl text)"

text \<open>
  The text delta of one event: \<open>json.message?.content || ''\<close> under the local dialect,
  \<open>json.choices?.[0]?.delta?.content || ''\<close> under the OpenAI-compatible one.
\<close>

definition delta :: "'n Platform \<Rightarrow> bool \<Rightarrow> 'n jsval \<Rightarrow> js_error + 'n jsval" where
  "delta P isOll j =
     (if isOll then
        and_then (get_prop j ''message'') (\<lambda>m.
          Inr (js_or P (opt_prop m ''content'') (JStr [])))
      else
        and_then (get_prop j ''choices'') (\<lambda>cs.
          Inr (js_or P (opt_prop (opt_prop (opt_index0 cs) ''delta'') ''content'') (JStr []))))"

text \<open>
  The \<open>try\<close> block of the loop over the lines, up to the test \<open>if (chunk)\<close>: the chunk
  of the line when the test passes, or \<open>None\<close> when the line is skipped before (the
  sentinel, a line that \<open>JSON.parse\<close> rejects, a property access that throws, an absent
  or empty delta).
\<close>

definition line_chunk :: "'n Platform \<Rightarrow> bool \<Rightarrow> string \<Rightarrow> 'n jsval option" where
  "line_chunk P isOll line =
     (let is_data = prefix ''data: '' line;
          data = (if is_data then drop 6 line else line)
      in if is_data \<and> data = ''[DONE]'' then None
         else (case JSON_parse P data of
                 None \<Rightarrow> None
               | Some j \<Rightarrow>
                   (case delta P isOll j of
                      Inl e \<Rightarrow> None
                    | Inr chunk \<Rightarrow> if truthy P chunk then Some chunk else None)))"

text \<open>
  What a line contributes: the chunk, and the string that \<open>content += chunk\<close> appends.
  When the conversion of the chunk to a string throws, the \<open>catch\<close> skips the line before
  the callback is reached, as it does for the other exceptions.
\<close>

definition line_delta :: "'n Platform \<Rightarrow> bool \<Rightarrow> string \<Rightarrow> ('n jsval \<times> string) option" where
  "line_delta P isOll line =
     (case line_chunk P isOll line of
        None \<Rightarrow> None
      | Some chunk \<Rightarrow>
          (case ToString P chunk of
             Inl e \<Rightarrow> None
           | Inr str \<Rightarrow> Some (chunk, str)))"

text \<open>
  The state of the decoder: \<open>content\<close>, and the arguments of the calls made to \<open>onChunk\<close>
  so far, in the order of the calls. \<open>onChunk\<close> says whether the caller passed a callback
  (\<open>onChunk?.(chunk)\<close>); an exception thrown by the callback is caught with the others,
  after the content was extended and the call made.
\<close>

type_synonym 'n decoder_state = "string \<times> 'n jsval list"

definition process_line ::
  "'n Platform \<Rightarrow> bool \<Rightarrow> bool \<Rightarrow> 'n decoder_state \<Rightarrow> string \<Rightarrow> 'n decoder_state" where
  "process_line P isOll onChunk st line =
     (case line_delta P isOll line of
        None \<Rightarrow> st
      | Some (chunk, str) \<Rightarrow>
          (fst st @ str, snd st @ (if onChunk then [chunk] else [])))"

fun for_lines ::
  "'n Platform \<Rightarrow> bool \<Rightarrow> bool \<Rightarrow> 'n decoder_state \<Rightarrow> string list \<Rightarrow> 'n decoder_state" where
  "for_lines P isOll onChunk st [] = st"
| "for_lines P isOll onChunk st (line # rest) =
     for_lines P isOll onChunk (process_line P isOll onChunk st line) rest"

fun read_loop ::
  "'n Platform \<Rightarrow> bool \<Rightarrow> bool \<Rightarrow> 'n decoder_state \<Rightarrow> string list \<Rightarrow> 'n decoder_state" where
  "read_loop P isOll onChunk st [] = st"
| "read_loop P isOll onChunk st (text # rest) =
     read_loop P isOll onChunk (for_lines P isOll onChunk st (chunk_lines text)) rest"

text \<open>
  \<open>_processStream\<close>: the calls made to the callback, and how the promise settles. The
  dialect is read from the settings once, before the first \<open>read()\<close>.
\<close>

definition processStream ::
  "'n Platform \<Rightarrow> OllamaSettings \<Rightarrow> 'n Response \<Rightarrow> bool
     \<Rightarrow> 'n jsval list \<times> (js_error + 'n jsval)" where
  "processStream P s response onChunk =
     (case body response of
        None \<Rightarrow> ([], Inl (Error ''No response body''))
      | Some (chunks, failure) \<Rightarrow>
          (let st = read_loop P (isOllama s) onChunk ([], []) chunks
           in (snd st,
               case failure of
                 None \<Rightarrow> Inr (JObj [(''role'', JStr ''assistant''), (''content'', JStr (fst st))])
               | Some e \<Rightarrow> Inl e)))"

text \<open>
  The deltas of a body in the order in which its lines are decoded, chunk after chunk and
  line after line, each with the string appended for it. The decoder is compared with
  this list.
\<close>

definition decoded_deltas ::
  "'n Platform \<Rightarrow> bool \<Rightarrow> string list \<Rightarrow> ('n jsval \<times> string) list" where
  "decoded_deltas P isOll chunks =
     List.map_filter (line_delta P isOll) (concat (map chunk_lines chunks))"

text \<open>Whole lines, each ended by a line feed.\<close>

definition join_lines :: "string list \<Rightarrow> string" where
  "join_lines ls = concat (map (\<lambda>l. l @ [CHR 0x0A]) ls)"

section \<open>The chat client (api/ai-client.ts, \<open>AIClient\<close>)\<close>

text \<open>The types \<open>Message\<close> and \<open>ChatOptions\<close>.\<close>

datatype Role = User | Assistant | System

record Message =
  role :: Role
  content :: string

record ChatOptions =
  model :: string
  messages :: "Message list"
  stream :: bool
  temperature :: "rat option"
  maxTokens :: "int option"

text \<open>
  The object handed to \<open>JSON.stringify\<close>, by dialect: \<open>{model, messages, stream,
  options: {temperature, num_predict}}\<close> and \<open>{model, messages, stream, temperature,
  max_tokens}\<close>.
\<close>

datatype ChatBody =
    OllamaBody string "Message list" bool "rat option" "int option"
  | OpenAIBody string "Message list" bool "rat option" "int option"

text \<open>A call of \<open>fetch\<close>: the URL and the init object. \<open>signal\<close> is the address of the
  AbortController whose signal is passed.\<close>

record Request =
  url :: string
  http_method :: string
  headers :: "(string \<times> string) list"
  payload :: "ChatBody option"
  signal :: "nat option"

text \<open>
  The client: \<open>_settings\<close> and \<open>_abortController\<close> (\<open>None\<close> is null, \<open>Some a\<close> the
  AbortController at address \<open>a\<close>). \<open>heap\<close> holds the AbortControllers allocated so far,
  by address: whether each has been aborted.
\<close>

record AIClient =
  settings :: OllamaSettings
  abortController :: "nat option"
  heap :: "bool list"

text \<open>What a call does that its caller can observe, in order.\<close>

datatype 'n Event = Fetch Request | OnChunk "'n jsval" | Settled "js_error + 'n jsval"

text \<open>The requests handed to the transport in a trace.\<close>

fun transport_calls :: "'n Event list \<Rightarrow> Request list" where
  "transport_calls [] = []"
| "transport_calls (Fetch r # es) = r # transport_calls es"
| "transport_calls (e # es) = transport_calls es"

definition new_client :: "OllamaSettings \<Rightarrow> bool list \<Rightarrow> AIClient" where
  "new_client s h = \<lparr>settings = s, abortController = None, heap = h\<rparr>"

definition updateSettings :: "AIClient \<Rightarrow> OllamaSettings \<Rightarrow> AIClient" where
  "updateSettings c s = c\<lparr>settings := s\<rparr>"

text \<open>\<open>this._abortController?.abort()\<close>.\<close>

definition abort :: "AIClient \<Rightarrow> AIClient" where
  "abort c = (case abortController c of
                None \<Rightarrow> c
              | Some a \<Rightarrow> c\<lparr>heap := (heap c)[a := True]\<rparr>)"

definition request_headers :: "OllamaSettings \<Rightarrow> (string \<times> string) list" where
  "request_headers s =
     (''Content-Type'', ''application/json'') #
     (if apiKey s \<noteq> [] then [(''Authorization'', ''Bearer '' @ apiKey s)] else [])"

text \<open>\<open>chat\<close> up to its first \<open>await\<close>: the new AbortController and the call of \<open>fetch\<close>.\<close>

definition chat_begin :: "AIClient \<Rightarrow> ChatOptions \<Rightarrow> AIClient \<times> Request" where
  "chat_begin c options =
     (let a = length (heap c);
          c1 = c\<lparr>abortController := Some a, heap := heap c @ [False]\<rparr>;
          s = settings c1;
          b = (if isOllama s
               then OllamaBody (ChatOptions.model options) (ChatOptions.messages options)
                      (stream options) (temperature options) (maxTokens options)
               else OpenAIBody (ChatOptions.model options) (ChatOptions.messages options)
                      (stream options) (temperature options) (maxTokens options))
      in (c1, \<lparr>url = getChatEndpoint s, http_method = ''POST'', headers = request_headers s,
                payload = Some b, signal = Some a\<rparr>))"

text \<open>
  The branch \<open>!response.ok\<close>: \<open>response.json().catch(() => ({}))\<close>, then
  \<open>throw new Error(error.error?.message || error.message || `API error: ${status}`)\<close>.
  The constructor converts its argument to a string.
\<close>

definition api_error :: "'n Platform \<Rightarrow> 'n Response \<Rightarrow> js_error + 'n jsval" where
  "api_error P response =
     (let error = (case json response of Inl e \<Rightarrow> JObj [] | Inr v \<Rightarrow> v)
      in and_then (get_prop error ''error'') (\<lambda>ee.
           if truthy P (opt_prop ee ''message'')
           then and_then (ToString P (opt_prop ee ''message'')) (\<lambda>msg. Inl (Error msg))
           else and_then (get_prop error ''message'') (\<lambda>m.
                and_then (ToString P
                            (js_or P m (JStr (''API error: '' @ dec_nat (status response)))))
                  (\<lambda>msg. Inl (Error msg)))))"

text \<open>The branch \<open>!options.stream\<close>, read with the settings \<open>s\<close> the client holds then.\<close>

definition decode_whole :: "OllamaSettings \<Rightarrow> 'n Response \<Rightarrow> js_error + 'n jsval" where
  "decode_whole s response =
     and_then (json response) (\<lambda>data.
       if isOllama s then get_prop data ''message''
       else and_then (get_prop data ''choices'') (\<lambda>cs.
            and_then (get_index0 cs) (\<lambda>c0.
            and_then (get_prop c0 ''message'') (\<lambda>m.
            and_then (get_prop m ''content'') (\<lambda>v.
              Inr (JObj [(''role'', JStr ''assistant''), (''content'', v)]))))))"

text \<open>
  \<open>chat\<close> after \<open>fetch\<close> has settled. The client \<open>c\<close> is the client as it is then: the
  settings are read again, once, in \<open>decode_whole\<close> or at the start of \<open>processStream\<close>.
\<close>

definition chat_settle ::
  "'n Platform \<Rightarrow> AIClient \<Rightarrow> ChatOptions \<Rightarrow> bool \<Rightarrow> js_error + 'n Response
     \<Rightarrow> 'n Event list" where
  "chat_settle P c options onChunk fetched =
     (case fetched of
        Inl e \<Rightarrow> [Settled (Inl e)]
      | Inr response \<Rightarrow>
          if \<not> ok response then [Settled (api_error P response)]
          else if \<not> stream options then [Settled (decode_whole (settings c) response)]
          else (let (calls, result) = processStream P (settings c) response onChunk
                in map OnChunk calls @ [Settled result]))"

text \<open>
  A call of \<open>chat\<close> with nothing else running meanwhile: the client afterwards and the
  trace of the call. \<open>fetch\<close> is the transport.
\<close>

definition chat ::
  "'n Platform \<Rightarrow> (Request \<Rightarrow> js_error + 'n Response) \<Rightarrow> AIClient \<Rightarrow> ChatOptions
     \<Rightarrow> bool \<Rightarrow> AIClient \<times> 'n Event list" where
  "chat P fetch c options onChunk =
     (let (c1, request) = chat_begin c options
      in (c1, Fetch request # chat_settle P c1 options onChunk (fetch request)))"

text \<open>
  The same call when \<open>updateSettings s'\<close> runs while the request is pending, between the
  call of \<open>fetch\<close> and its settling.
\<close>

definition chat_during_update ::
  "'n Platform \<Rightarrow> (Request \<Rightarrow> js_error + 'n Response) \<Rightarrow> AIClient \<Rightarrow> ChatOptions
     \<Rightarrow> bool \<Rightarrow> OllamaSettings \<Rightarrow> AIClient \<times> 'n Event list" where
  "chat_during_update P fetch c options onChunk s' =
     (let (c1, request) = chat_begin c options;
          c2 = updateSettings c1 s'
      in (c2, Fetch request # chat_settle P c2 options onChunk (fetch request)))"

subsection \<open>Model listing (\<open>fetchModels\<close>)\<close>

fun map_result :: "('a \<Rightarrow> js_error + 'b) \<Rightarrow> 'a list \<Rightarrow> js_error + 'b list" where
  "map_result f [] = Inr []"
| "map_result f (x # xs) =
     and_then (f x) (\<lambda>y. and_then (map_result f xs) (\<lambda>ys. Inr (y # ys)))"

text \<open>
  The callback of \<open>data.data.map\<close>: \<open>{name: m.id, modified_at: m.created ? new
  Date(m.created * 1000).toISOString() : '', size: 0}\<close>.
\<close>

definition model_descriptor :: "('n::zero) Platform \<Rightarrow> 'n jsval \<Rightarrow> js_error + 'n jsval" where
  "model_descriptor P m =
     and_then (get_prop m ''id'') (\<lambda>name.
     and_then (get_prop m ''created'') (\<lambda>created.
     and_then (if truthy P created then toISOString P created else Inr []) (\<lambda>modified.
       Inr (JObj [(''name'', name), (''modified_at'', JStr modified), (''size'', JNum 0)]))))"

definition models_request :: "OllamaSettings \<Rightarrow> Request" where
  "models_request s =
     \<lparr>url = getModelsEndpoint s, http_method = ''GET'', headers = request_headers s,
      payload = None, signal = None\<rparr>"

text \<open>The body of the \<open>try\<close> block; \<open>x.map\<close> is a function only when \<open>x\<close> is an array.\<close>

definition fetchModels_try ::
  "('n::zero) Platform \<Rightarrow> (Request \<Rightarrow> js_error + 'n Response) \<Rightarrow> AIClient
     \<Rightarrow> js_error + 'n jsval" where
  "fetchModels_try P fetch c =
     and_then (fetch (models_request (settings c))) (\<lambda>response.
       if \<not> ok response then Inr (JArr [])
       else and_then (json response) (\<lambda>data.
         if isOllama (settings c)
         then and_then (get_prop data ''models'') (\<lambda>ms. Inr (js_or P ms (JArr [])))
         else and_then (get_prop data ''data'') (\<lambda>d.
                if truthy P d
                then (case d of
                        JArr xs \<Rightarrow> and_then (map_result (model_descriptor P) xs)
                                     (\<lambda>ds. Inr (JArr ds))
                      | _ \<Rightarrow> Inl TypeError)
                else Inr (JArr []))))"

text \<open>\<open>fetchModels\<close>: the \<open>try\<close> block, and \<open>catch { return [] }\<close>.\<close>

definition fetchModels ::
  "('n::zero) Platform \<Rightarrow> (Request \<Rightarrow> js_error + 'n Response) \<Rightarrow> AIClient
     \<Rightarrow> js_error + 'n jsval" where
  "fetchModels P fetch c =
     (case fetchModels_try P fetch c of
        Inl e \<Rightarrow> Inr (JArr [])
      | Inr v \<Rightarrow> Inr v)"

section \<open>Example inputs\<close>

text \<open>
  Two configurations, one per dialect. A platform whose numbers are the integers, with
  \<open>JSON.parse\<close> given on the event lines of the examples (every other string of the
  examples is one it rejects). The success response whose body delivers the given chunks
  and ends, and the one whose payload is the given value. A request.
\<close>

definition local_settings :: OllamaSettings where
  "local_settings = \<lparr>apiEndpoint = ''http://localhost:11434'', apiKey = [], model = ''llama3''\<rparr>"

definition openai_settings :: OllamaSettings where
  "openai_settings = \<lparr>apiEndpoint = ''https://api.openai.com'', apiKey = ''sk-test'', model = ''gpt-4o''\<rparr>"

definition dec_int :: "int \<Rightarrow> string" where
  "dec_int i = (if i < 0 then CHR ''-'' # dec_nat (nat (- i)) else dec_nat (nat i))"

definition parse_table :: "string \<Rightarrow> int jsval option" where
  \<open>parse_table = map_of
     [(''{"message":{"content":"Hel"}}'', JObj [(''message'', JObj [(''content'', JStr ''Hel'')])]),
      (''{"message":{"content":"lo"}}'', JObj [(''message'', JObj [(''content'', JStr ''lo'')])]),
      (''{"message":{"content":[1,null,true]}}'',
         JObj [(''message'', JObj [(''content'', JArr [JNum 1, JNull, JBool True])])]),
      (''{"message":{"content":{"toString":1}}}'',
         JObj [(''message'', JObj [(''content'', JObj [(''toString'', JNum 1)])])]),
      (''{"choices":[{"delta":{"content":"Hel"}}]}'',
         JObj [(''choices'', JArr [JObj [(''delta'', JObj [(''content'', JStr ''Hel'')])]])]),
      (''{"choices":[{"delta":{"content":"lo"}}]}'',
         JObj [(''choices'', JArr [JObj [(''delta'', JObj [(''content'', JStr ''lo'')])]])])]\<close>

definition example_platform :: "int Platform" where
  "example_platform =
     \<lparr>JSON_parse = parse_table, truthy_number = (\<lambda>n. n \<noteq> 0), number_string = dec_int,
      toISOString = (\<lambda>v. Inl RangeError)\<rparr>"

definition stream_response :: "string list \<Rightarrow> 'n Response" where
  "stream_response chunks =
     \<lparr>ok = True, status = 200, json = Inl SyntaxError, body = Some (chunks, None)\<rparr>"

definition whole_response :: "'n jsval \<Rightarrow> 'n Response" where
  "whole_response data = \<lparr>ok = True, status = 200, json = Inr data, body = None\<rparr>"

definition hello_options :: "bool \<Rightarrow> ChatOptions" where
  "hello_options st =
     \<lparr>model = ''llama3'', messages = [\<lparr>role = User, content = ''hi''\<rparr>], stream = st,
      temperature = None, maxTokens = None\<rparr>"

definition hello_reply :: "'n jsval" where
  "hello_reply = JObj [(''role'', JStr ''assistant''), (''content'', JStr ''Hello'')]"

section \<open>Conversation history (features/conversation.ts)\<close>

record ConversationEntry =
  noteId :: string
  messages :: "Message list"
  createdAt :: nat
  updatedAt :: nat

text \<open>The \<open>_conversations\<close> map of \<open>ConversationHistory\<close>, keyed by note identifier.\<close>

type_synonym ConversationHistory = "string \<rightharpoonup> ConversationEntry"

text \<open>\<open>entry?.messages || []\<close>: an array is truthy, also the empty one.\<close>

definition getMessages :: "ConversationHistory \<Rightarrow> string \<Rightarrow> Message list" where
  "getMessages conversations nid =
     (case conversations nid of None \<Rightarrow> [] | Some entry \<Rightarrow> messages entry)"

text \<open>
  \<open>xs.slice(start)\<close> for an integer \<open>start\<close>: a negative \<open>start\<close> counts from the end,
  and \<open>-0\<close> is \<open>0\<close>.
\<close>

definition slice_from :: "int \<Rightarrow> 'a list \<Rightarrow> 'a list" where
  "slice_from start xs =
     (let len = int (length xs);
          k = (if start < 0 then max (len + start) 0 else min start len)
      in drop (nat k) xs)"

definition getConversationContext :: "ConversationHistory \<Rightarrow> string \<Rightarrow> int \<Rightarrow> Message list" where
  "getConversationContext conversations nid maxMessages =
     (let msgs = getMessages conversations nid
      in if int (length msgs) \<le> maxMessages then msgs
         else slice_from (- maxMessages) msgs)"

text \<open>The default value of the parameter \<open>maxMessages\<close>.\<close>

definition default_maxMessages :: int where
  "default_maxMessages = 20"

section \<open>Endpoint resolution\<close>

text \<open>
  An occurrence of a needle that holds no \<open>c\<close> cannot run across a \<open>c\<close>; white space and
  the trimmed slash are such characters for the needles of \<open>isOllama\<close>.
\<close>

lemma sublist_skip_char:
  assumes "c \<notin> set n"
  shows "sublist n (a @ c # b) \<longleftrightarrow> sublist n a \<or> sublist n b"
proof (cases n)
  case Nil
  then show ?thesis by simp
next
  case (Cons x xs)
  have np: "\<not> prefix n (c # b)"
    using assms Cons by (auto simp: prefix_Cons)
  have split: "\<not> (\<exists>n1 n2. n = n1 @ n2 \<and> n2 \<noteq> [] \<and> prefix n2 (c # b))"
    using assms by (auto simp: prefix_Cons neq_Nil_conv)
  have "sublist n (a @ c # b) \<longleftrightarrow>
          sublist n a \<or> sublist n (c # b) \<or>
          (\<exists>n1 n2. n = n1 @ n2 \<and> suffix n1 a \<and> prefix n2 (c # b))"
    by (rule sublist_append)
  moreover have "sublist n (c # b) \<longleftrightarrow> sublist n b"
    using np by (simp add: sublist_Cons_right)
  moreover have "(\<exists>n1 n2. n = n1 @ n2 \<and> suffix n1 a \<and> prefix n2 (c # b)) \<Longrightarrow> sublist n a"
  proof -
    assume "\<exists>n1 n2. n = n1 @ n2 \<and> suffix n1 a \<and> prefix n2 (c # b)"
    then obtain n1 n2 where h: "n = n1 @ n2" "suffix n1 a" "prefix n2 (c # b)" by blast
    with split have "n2 = []" by blast
    with h show "sublist n a" by auto
  qed
  ultimately show ?thesis by blast
qed

lemma sublist_dropWhile:
  assumes "\<forall>c \<in> set n. \<not> P c" and "n \<noteq> []"
  shows "sublist n (dropWhile P y) \<longleftrightarrow> sublist n y"
proof (induction y)
  case Nil
  then show ?case by simp
next
  case (Cons c y)
  show ?case
  proof (cases "P c")
    case True
    then have "\<not> prefix n (c # y)"
      using assms by (cases n) (auto simp: prefix_Cons)
    then show ?thesis using True Cons by (simp add: sublist_Cons_right)
  next
    case False
    then show ?thesis by simp
  qed
qed

lemma sublist_trim:
  assumes "\<forall>c \<in> set n. \<not> is_ws c" and "n \<noteq> []"
  shows "sublist n (trim x) \<longleftrightarrow> sublist n x"
proof -
  have r: "\<forall>c \<in> set (rev n). \<not> is_ws c" "rev n \<noteq> []" using assms by auto
  have "sublist n (trim x) \<longleftrightarrow> sublist (rev n) (dropWhile is_ws (rev (dropWhile is_ws x)))"
    unfolding trim_def by (metis sublist_rev rev_rev_ident)
  also have "\<dots> \<longleftrightarrow> sublist (rev n) (rev (dropWhile is_ws x))"
    by (rule sublist_dropWhile [OF r])
  also have "\<dots> \<longleftrightarrow> sublist n (dropWhile is_ws x)" by simp
  also have "\<dots> \<longleftrightarrow> sublist n x" by (rule sublist_dropWhile [OF assms])
  finally show ?thesis .
qed

lemma sublist_getBaseUrl:
  assumes "\<forall>c \<in> set n. \<not> is_ws c" and "n \<noteq> []" and "CHR ''/'' \<notin> set n"
  shows "sublist n (getBaseUrl s) \<longleftrightarrow> sublist n (apiEndpoint s)"
proof (cases "endsWith (trim (apiEndpoint s)) ''/''")
  case True
  then have "trim (apiEndpoint s) = butlast (trim (apiEndpoint s)) @ CHR ''/'' # []"
    by (auto simp: endsWith_def suffix_def)
  then have "sublist n (trim (apiEndpoint s)) \<longleftrightarrow>
               sublist n (butlast (trim (apiEndpoint s))) \<or> sublist n []"
    using sublist_skip_char [OF assms(3), of "butlast (trim (apiEndpoint s))" "[]"] by simp
  then show ?thesis
    using True assms by (simp add: getBaseUrl_def sublist_trim)
next
  case False
  then show ?thesis using assms by (simp add: getBaseUrl_def sublist_trim)
qed

lemma needle_facts:
  "\<forall>c \<in> set ''localhost''. \<not> is_ws c" "CHR ''/'' \<notin> set ''localhost''"
  "\<forall>c \<in> set ''127.0.0.1''. \<not> is_ws c" "CHR ''/'' \<notin> set ''127.0.0.1''"
  "\<forall>c \<in> set ''11434''. \<not> is_ws c" "CHR ''/'' \<notin> set ''11434''"
  by (simp_all add: is_ws_def)

text \<open>
  A path that starts with a slash, appended to the base, adds no occurrence of a needle
  unless the rest of the path holds one: the dialect of a resolved URL is the dialect of
  the configured one.
\<close>

lemma isOllama_resolved:
  assumes "\<not> sublist ''localhost'' p" "\<not> sublist ''127.0.0.1'' p" "\<not> sublist ''11434'' p"
  shows "isOllama (s\<lparr>apiEndpoint := getBaseUrl s @ CHR ''/'' # p\<rparr>) = isOllama s"
  using assms
  by (simp add: isOllama_def sublist_skip_char needle_facts sublist_getBaseUrl)

lemma trim_no_ws:
  assumes "s \<noteq> []" "\<not> is_ws (hd s)" "\<not> is_ws (last s)"
  shows "trim s = s"
proof -
  have a: "dropWhile is_ws s = s" using assms by (cases s) auto
  have "rev s \<noteq> []" "\<not> is_ws (hd (rev s))" using assms by (auto simp: hd_rev)
  then have "dropWhile is_ws (rev s) = rev s" by (cases "rev s") auto
  then show ?thesis by (simp add: trim_def a)
qed

lemma hd_trim: "trim x \<noteq> [] \<Longrightarrow> \<not> is_ws (hd (trim x))"
proof -
  assume ne: "trim x \<noteq> []"
  let ?y = "rev (dropWhile is_ws x)"
  have "trim x = rev (dropWhile is_ws ?y)" by (simp add: trim_def)
  have dne: "dropWhile is_ws x \<noteq> []"
  proof
    assume "dropWhile is_ws x = []"
    then have "trim x = rev (dropWhile is_ws (rev []))" unfolding trim_def by (simp only:)
    then have "trim x = []" by simp
    with ne show False by simp
  qed
  have "\<exists>zs. dropWhile is_ws x = trim x @ zs"
  proof -
    have "?y = takeWhile is_ws ?y @ dropWhile is_ws ?y" by simp
    then have "rev ?y = rev (dropWhile is_ws ?y) @ rev (takeWhile is_ws ?y)"
      by (metis rev_append)
    then show ?thesis by (auto simp: trim_def)
  qed
  then obtain zs where z: "dropWhile is_ws x = trim x @ zs" by blast
  then have "hd (dropWhile is_ws x) = hd (trim x)" using ne by (metis hd_append2)
  moreover have "\<not> is_ws (hd (dropWhile is_ws x))" using dne by (rule hd_dropWhile)
  ultimately show ?thesis by simp
qed

lemma hd_getBaseUrl: "getBaseUrl s \<noteq> [] \<Longrightarrow> \<not> is_ws (hd (getBaseUrl s))"
proof -
  assume ne: "getBaseUrl s \<noteq> []"
  let ?t = "trim (apiEndpoint s)"
  have tne: "?t \<noteq> []" using ne by (auto simp: getBaseUrl_def Let_def split: if_splits)
  have "hd (getBaseUrl s) = hd ?t"
    using ne by (cases ?t) (auto simp: getBaseUrl_def Let_def split: if_splits)
  then show ?thesis using hd_trim [OF tne] by simp
qed

lemma endsWith_char: "endsWith r [c] \<longleftrightarrow> r \<noteq> [] \<and> last r = c"
  by (cases r rule: rev_cases) (auto simp: endsWith_def)

lemma getBaseUrl_resolved:
  assumes "p \<noteq> []" "\<not> is_ws (last p)" "last p \<noteq> CHR ''/''"
  shows "getBaseUrl (s\<lparr>apiEndpoint := getBaseUrl s @ CHR ''/'' # p\<rparr>) = getBaseUrl s @ CHR ''/'' # p"
proof -
  let ?r = "getBaseUrl s @ CHR ''/'' # p"
  have h: "\<not> is_ws (hd ?r)"
  proof (cases "getBaseUrl s")
    case Nil
    then show ?thesis by (simp add: is_ws_def)
  next
    case (Cons a as)
    then show ?thesis using hd_getBaseUrl [of s] by simp
  qed
  have l: "last ?r = last p" using assms(1) by simp
  have "?r \<noteq> []" by simp
  then have t: "trim ?r = ?r" using h l assms(2) by (intro trim_no_ws) simp_all
  have e: "\<not> endsWith ?r ''/''"
    unfolding endsWith_char using l assms(3) by simp
  show ?thesis using t e by (simp add: getBaseUrl_def)
qed

lemma sublist_appendR: "sublist n a \<Longrightarrow> sublist n (a @ b)"
  by (simp add: sublist_append)

lemma sublist_v1_resolved:
  assumes "\<not> isOllama s"
  shows "sublist ''/v1'' (getChatEndpoint s)" and "sublist ''/v1'' (getModelsEndpoint s)"
proof -
  have a: "sublist ''/v1'' (b @ ''/v1/chat/completions'')" for b :: string
    using sublist_appendI [of "''/v1''" b "''/chat/completions''"] by simp
  have c: "sublist ''/v1'' (b @ ''/v1/models'')" for b :: string
    using sublist_appendI [of "''/v1''" b "''/models''"] by simp
  show "sublist ''/v1'' (getChatEndpoint s)"
  proof (cases "sublist ''/v1'' (getBaseUrl s)")
    case True
    then show ?thesis using assms sublist_appendR [OF True]
      by (simp add: getChatEndpoint_def Let_def)
  next
    case False
    then show ?thesis using assms a by (simp add: getChatEndpoint_def Let_def)
  qed
  show "sublist ''/v1'' (getModelsEndpoint s)"
  proof (cases "sublist ''/v1'' (getBaseUrl s)")
    case True
    then show ?thesis using assms sublist_appendR [OF True]
      by (simp add: getModelsEndpoint_def Let_def)
  next
    case False
    then show ?thesis using assms c by (simp add: getModelsEndpoint_def Let_def)
  qed
qed

lemma getChatEndpoint_shape:
  "getChatEndpoint s = getBaseUrl s @ CHR ''/'' #
     (if isOllama s then ''api/chat''
      else if sublist ''/v1'' (getBaseUrl s) then ''chat/completions'' else ''v1/chat/completions'')"
  by (simp add: getChatEndpoint_def Let_def)

lemma getModelsEndpoint_shape:
  "getModelsEndpoint s = getBaseUrl s @ CHR ''/'' #
     (if isOllama s then ''api/tags''
      else if sublist ''/v1'' (getBaseUrl s) then ''models'' else ''v1/models'')"
  by (simp add: getModelsEndpoint_def Let_def)

lemma no_needle_in_paths:
  "\<not> sublist ''localhost'' ''api/chat''" "\<not> sublist ''127.0.0.1'' ''api/chat''" "\<not> sublist ''11434'' ''api/chat''"
  "\<not> sublist ''localhost'' ''chat/completions''" "\<not> sublist ''127.0.0.1'' ''chat/completions''" "\<not> sublist ''11434'' ''chat/completions''"
  "\<not> sublist ''localhost'' ''v1/chat/completions''" "\<not> sublist ''127.0.0.1'' ''v1/chat/completions''" "\<not> sublist ''11434'' ''v1/chat/completions''"
  "\<not> sublist ''localhost'' ''api/tags''" "\<not> sublist ''127.0.0.1'' ''api/tags''" "\<not> sublist ''11434'' ''api/tags''"
  "\<not> sublist ''localhost'' ''models''" "\<not> sublist ''127.0.0.1'' ''models''" "\<not> sublist ''11434'' ''models''"
  "\<not> sublist ''localhost'' ''v1/models''" "\<not> sublist ''127.0.0.1'' ''v1/models''" "\<not> sublist ''11434'' ''v1/models''"
  by code_simp+

text \<open>
  Claim C8, as amended: resolving an already resolved URL appends the dialect's path once
  more, \<open>/api/chat\<close> or \<open>/api/tags\<close> under the local dialect, \<open>/chat/completions\<close> or
  \<open>/models\<close> under the OpenAI-compatible one. The versioned segment is inserted at most
  once: a resolved OpenAI-compatible URL contains \<open>/v1\<close> and gets no second one.
\<close>

theorem resolve_twice_appends_path:
  "getChatEndpoint (s\<lparr>apiEndpoint := getChatEndpoint s\<rparr>) =
     getChatEndpoint s @ (if isOllama s then ''/api/chat'' else ''/chat/completions'')
   \<and> getModelsEndpoint (s\<lparr>apiEndpoint := getModelsEndpoint s\<rparr>) =
     getModelsEndpoint s @ (if isOllama s then ''/api/tags'' else ''/models'')"
proof
  let ?c = "s\<lparr>apiEndpoint := getChatEndpoint s\<rparr>"
  obtain p where p: "getChatEndpoint s = getBaseUrl s @ CHR ''/'' # p"
    and pin: "p \<in> {''api/chat'', ''chat/completions'', ''v1/chat/completions''}"
    using getChatEndpoint_shape [of s] by (auto split: if_splits)
  have b: "getBaseUrl ?c = getChatEndpoint s"
    unfolding p using pin by (intro getBaseUrl_resolved) (auto simp: is_ws_def)
  have o: "isOllama ?c = isOllama s"
    unfolding p using pin no_needle_in_paths by (intro isOllama_resolved) auto
  show "getChatEndpoint ?c =
     getChatEndpoint s @ (if isOllama s then ''/api/chat'' else ''/chat/completions'')"
    using sublist_v1_resolved(1) [of s]
    by (simp add: getChatEndpoint_def [of ?c] b o)
next
  let ?c = "s\<lparr>apiEndpoint := getModelsEndpoint s\<rparr>"
  obtain p where p: "getModelsEndpoint s = getBaseUrl s @ CHR ''/'' # p"
    and pin: "p \<in> {''api/tags'', ''models'', ''v1/models''}"
    using getModelsEndpoint_shape [of s] by (auto split: if_splits)
  have b: "getBaseUrl ?c = getModelsEndpoint s"
    unfolding p using pin by (intro getBaseUrl_resolved) (auto simp: is_ws_def)
  have o: "isOllama ?c = isOllama s"
    unfolding p using pin no_needle_in_paths by (intro isOllama_resolved) auto
  show "getModelsEndpoint ?c =
     getModelsEndpoint s @ (if isOllama s then ''/api/tags'' else ''/models'')"
    using sublist_v1_resolved(2) [of s]
    by (simp add: getModelsEndpoint_def [of ?c] b o)
qed

text \<open>
  Claim C8 as stated fails: \<open>https://api.openai.com\<close> resolves to
  \<open>https://api.openai.com/v1/chat/completions\<close>, which resolves to
  \<open>https://api.openai.com/v1/chat/completions/chat/completions\<close>.
\<close>

theorem resolve_not_idempotent:
  "getChatEndpoint (\<lparr>apiEndpoint = ''https://api.openai.com'', apiKey = [], model = []\<rparr>
      \<lparr>apiEndpoint := getChatEndpoint \<lparr>apiEndpoint = ''https://api.openai.com'', apiKey = [], model = []\<rparr>\<rparr>)
   \<noteq> getChatEndpoint \<lparr>apiEndpoint = ''https://api.openai.com'', apiKey = [], model = []\<rparr>"
  by code_simp

section \<open>The streaming decoder\<close>

text \<open>
  The two loops leave nothing but the deltas of the lines, in the order of the lines:
  the content is the concatenation of their strings and the callback is called once for
  each.
\<close>

lemma for_lines_eq:
  "for_lines P isOll onChunk st ls =
     (fst st @ concat (map snd (List.map_filter (line_delta P isOll) ls)),
      snd st @ (if onChunk then map fst (List.map_filter (line_delta P isOll) ls) else []))"
proof (induction ls arbitrary: st)
  case Nil
  then show ?case by (simp add: map_filter_simps)
next
  case (Cons l ls)
  show ?case
  proof (cases "line_delta P isOll l")
    case None
    then show ?thesis using Cons [of st] by (simp add: process_line_def map_filter_simps)
  next
    case (Some p)
    obtain d str where p: "p = (d, str)" by (cases p)
    show ?thesis
      using Some p Cons [of "(fst st @ str, snd st @ (if onChunk then [d] else []))"]
      by (simp add: process_line_def map_filter_simps)
  qed
qed

lemma for_lines_append:
  "for_lines P isOll onChunk st (xs @ ys) =
     for_lines P isOll onChunk (for_lines P isOll onChunk st xs) ys"
  by (induction xs arbitrary: st) simp_all

lemma read_loop_eq:
  "read_loop P isOll onChunk st chunks =
     for_lines P isOll onChunk st (concat (map chunk_lines chunks))"
  by (induction chunks arbitrary: st) (simp_all add: for_lines_append)

lemma read_loop_deltas:
  "read_loop P isOll onChunk ([], []) chunks =
     (concat (map snd (decoded_deltas P isOll chunks)),
      if onChunk then map fst (decoded_deltas P isOll chunks) else [])"
  by (simp add: read_loop_eq for_lines_eq decoded_deltas_def)

lemma processStream_deltas:
  assumes "body response = Some (chunks, None)"
  shows "processStream P s response onChunk =
           ((if onChunk then map fst (decoded_deltas P (isOllama s) chunks) else []),
            Inr (JObj [(''role'', JStr ''assistant''),
                       (''content'',
                        JStr (concat (map snd (decoded_deltas P (isOllama s) chunks))))]))"
  using assms by (simp add: processStream_def read_loop_deltas)

lemma processStream_read_error:
  assumes "body response = Some (chunks, Some e)"
  shows "snd (processStream P s response onChunk) = Inl e"
  using assms by (simp add: processStream_def Let_def)

text \<open>
  The string kept with a delta is the string of the callback argument; when the arguments
  are strings, the strings kept are the arguments themselves.
\<close>

lemma line_delta_ToString:
  "line_delta P isOll l = Some (d, str) \<Longrightarrow> ToString P d = Inr str"
  by (auto simp: line_delta_def split: option.splits sum.splits)

lemma decoded_deltas_ToString:
  "list_all2 (\<lambda>d str. ToString P d = Inr str)
     (map fst (decoded_deltas P isOll chunks)) (map snd (decoded_deltas P isOll chunks))"
proof -
  have "list_all2 (\<lambda>d str. ToString P d = Inr str)
          (map fst (List.map_filter (line_delta P isOll) ls))
          (map snd (List.map_filter (line_delta P isOll) ls))" for ls
  proof (induction ls)
    case Nil
    then show ?case by (simp add: map_filter_simps)
  next
    case (Cons l ls)
    then show ?case
      by (cases "line_delta P isOll l") (auto simp: map_filter_simps line_delta_ToString)
  qed
  then show ?thesis by (simp add: decoded_deltas_def)
qed

lemma string_arguments:
  assumes "list_all2 (\<lambda>d str. ToString P d = Inr str) ds strs"
    and "ds = map JStr ss"
  shows "strs = ss"
  using assms
proof (induction ds strs arbitrary: ss rule: list_all2_induct)
  case Nil
  then show ?case by simp
next
  case (Cons d ds str strs)
  then obtain t ts where ss: "ss = t # ts" and d: "d = JStr t" and ds: "ds = map JStr ts"
    by (cases ss) auto
  have "str = t" using Cons.hyps(1) d by simp
  then show ?case using Cons.IH [OF ds] ss by simp
qed

text \<open>
  Whole lines split into exactly those lines, followed by the pieces of what comes after
  the last line feed; a chunk of whole lines leaves a last empty piece that the filter
  drops.
\<close>

lemma split_nl_line:
  assumes "CHR 0x0A \<notin> set l"
  shows "split_nl (l @ CHR 0x0A # rest) = l # split_nl rest"
  using assms by (induction l) auto

lemma split_nl_no_nl: "CHR 0x0A \<notin> set l \<Longrightarrow> split_nl l = [l]"
  by (induction l) auto

lemma trim_Nil: "trim [] = []"
  by (simp add: trim_def)

lemma split_nl_join_lines:
  assumes "\<forall>l \<in> set ls. CHR 0x0A \<notin> set l"
  shows "split_nl (join_lines ls @ r) = ls @ split_nl r"
  using assms
proof (induction ls)
  case Nil
  then show ?case by (simp add: join_lines_def)
next
  case (Cons l ls)
  then have "split_nl (l @ CHR 0x0A # (join_lines ls @ r)) = l # split_nl (join_lines ls @ r)"
    by (intro split_nl_line) simp
  then show ?case using Cons by (simp add: join_lines_def)
qed

lemma chunk_lines_join_lines:
  assumes "\<forall>l \<in> set ls. CHR 0x0A \<notin> set l"
  shows "chunk_lines (join_lines ls) = filter (\<lambda>l. trim l \<noteq> []) ls"
  using split_nl_join_lines [OF assms, of "[]"] by (simp add: chunk_lines_def trim_Nil)

lemma chunk_lines_join_lines_rest:
  assumes "\<forall>l \<in> set ls. CHR 0x0A \<notin> set l" and "CHR 0x0A \<notin> set r"
  shows "chunk_lines (join_lines ls @ r) = filter (\<lambda>l. trim l \<noteq> []) (ls @ [r])"
  using split_nl_join_lines [OF assms(1), of r] assms(2)
  by (simp add: chunk_lines_def split_nl_no_nl)

lemma decoded_deltas_line_aligned:
  assumes "\<forall>l \<in> set (concat groups). CHR 0x0A \<notin> set l"
  shows "decoded_deltas P isOll (map join_lines groups) =
           List.map_filter (line_delta P isOll)
             (filter (\<lambda>l. trim l \<noteq> []) (concat groups))"
proof -
  have "concat (map chunk_lines (map join_lines groups)) =
          filter (\<lambda>l. trim l \<noteq> []) (concat groups)"
    using assms
  proof (induction groups)
    case Nil
    then show ?case by simp
  next
    case (Cons g gs)
    then have "chunk_lines (join_lines g) = filter (\<lambda>l. trim l \<noteq> []) g"
      by (intro chunk_lines_join_lines) simp
    then show ?case using Cons by simp
  qed
  then show ?thesis by (simp add: decoded_deltas_def)
qed

text \<open>
  The branch for a non-success status always throws.
\<close>

lemma api_error_throws: "\<exists>e. api_error P response = Inl e"
  by (auto simp: api_error_def and_then_def Let_def split: sum.splits)

lemma chat_begin_settings: "settings (fst (chat_begin c options)) = settings c"
  by (simp add: chat_begin_def Let_def)

text \<open>
  Claim C1. A streaming call of \<open>chat\<close> that completes normally (its trace ends with a
  resolution to \<open>msg\<close>) has received a response whose body was read to its end. Its
  trace is the request, then one callback invocation for each delta in the order in which
  the deltas were decoded from the body, then the resolution: every invocation comes
  before the call resolves. The message \<open>msg\<close> is the object of role \<open>assistant\<close> whose
  content is the concatenation, in the order of the invocations, of the strings of the
  callback arguments, each the string that JavaScript's concatenation gives the argument;
  when the arguments are strings, it is the concatenation of the arguments themselves.
\<close>

theorem chat_stream_callbacks:
  assumes "stream options"
    and "last (snd (chat P fetch c options True)) = Settled (Inr msg)"
  shows "\<exists>response chunks ds.
           fetch (snd (chat_begin c options)) = Inr response \<and>
           body response = Some (chunks, None) \<and>
           ds = decoded_deltas P (isOllama (settings c)) chunks \<and>
           snd (chat P fetch c options True) =
             Fetch (snd (chat_begin c options)) # map OnChunk (map fst ds) @
             [Settled (Inr msg)] \<and>
           msg = JObj [(''role'', JStr ''assistant''),
                       (''content'', JStr (concat (map snd ds)))] \<and>
           list_all2 (\<lambda>d str. ToString P d = Inr str) (map fst ds) (map snd ds) \<and>
           (\<forall>ss. map fst ds = map JStr ss \<longrightarrow>
                 msg = JObj [(''role'', JStr ''assistant''), (''content'', JStr (concat ss))])"
proof -
  obtain c1 request where b: "chat_begin c options = (c1, request)"
    by (cases "chat_begin c options")
  have s1: "settings c1 = settings c" using chat_begin_settings [of c options] b by simp
  have t: "snd (chat P fetch c options True) =
             Fetch request # chat_settle P c1 options True (fetch request)"
    by (simp add: chat_def b)
  have ne: "chat_settle P c1 options True (fetch request) \<noteq> []"
    by (auto simp: chat_settle_def split: sum.splits prod.splits)
  have l: "last (chat_settle P c1 options True (fetch request)) = Settled (Inr msg)"
    using assms(2) ne by (simp add: t)
  show ?thesis
  proof (cases "fetch request")
    case (Inl e)
    then show ?thesis using l by (simp add: chat_settle_def)
  next
    case (Inr response)
    show ?thesis
    proof (cases "ok response")
      case False
      then show ?thesis using l Inr api_error_throws [of P response]
        by (auto simp: chat_settle_def)
    next
      case True
      show ?thesis
      proof (cases "body response")
        case None
        then show ?thesis using l Inr True assms(1)
          by (simp add: chat_settle_def processStream_def)
      next
        case (Some p)
        obtain chunks failure where p: "p = (chunks, failure)" by (cases p)
        show ?thesis
        proof (cases failure)
          case (Some e)
          then show ?thesis using l Inr True assms(1) \<open>body response = Some p\<close> p
            by (simp add: chat_settle_def processStream_def Let_def)
        next
          case None
          then have bd: "body response = Some (chunks, None)"
            using \<open>body response = Some p\<close> p by simp
          define ds where "ds = decoded_deltas P (isOllama (settings c)) chunks"
          have st: "chat_settle P c1 options True (fetch request) =
                  map OnChunk (map fst ds) @
                  [Settled (Inr (JObj [(''role'', JStr ''assistant''),
                                       (''content'', JStr (concat (map snd ds)))]))]"
            using Inr True assms(1)
            by (simp add: chat_settle_def processStream_deltas [OF bd] s1 ds_def)
          then have m: "msg = JObj [(''role'', JStr ''assistant''),
                                    (''content'', JStr (concat (map snd ds)))]"
            using l by simp
          have a2: "list_all2 (\<lambda>d str. ToString P d = Inr str) (map fst ds) (map snd ds)"
            unfolding ds_def by (rule decoded_deltas_ToString)
          have strs: "\<forall>ss. map fst ds = map JStr ss \<longrightarrow>
                 msg = JObj [(''role'', JStr ''assistant''), (''content'', JStr (concat ss))]"
            using string_arguments [OF a2] m by auto
          have tr: "snd (chat P fetch c options True) =
             Fetch (snd (chat_begin c options)) # map OnChunk (map fst ds) @
             [Settled (Inr msg)]"
            using t st m b by simp
          from Inr bd ds_def tr m a2 strs b show ?thesis by auto
        qed
      qed
    qed
  qed
qed

text \<open>
  A streamed call under the local dialect, four event lines in one chunk. Their deltas
  are the string \<open>Hel\<close>, the array \<open>[1,null,true]\<close>, whose string is \<open>1,,true\<close>, an
  object with an own property \<open>toString\<close>, for which the concatenation throws so that
  the line is skipped, and the string \<open>lo\<close>.
\<close>

theorem chat_stream_callbacks_witness:
  \<open>stream (hello_options True) \<and>
   last (snd (chat example_platform
           (\<lambda>r. Inr (stream_response
              [join_lines [''{"message":{"content":"Hel"}}'',
                           ''{"message":{"content":[1,null,true]}}'',
                           ''{"message":{"content":{"toString":1}}}'',
                           ''{"message":{"content":"lo"}}'']]))
           (new_client local_settings []) (hello_options True) True))
     = Settled (Inr (JObj [(''role'', JStr ''assistant''),
                           (''content'', JStr ''Hel1,,truelo'')])) \<and>
   snd (chat example_platform
           (\<lambda>r. Inr (stream_response
              [join_lines [''{"message":{"content":"Hel"}}'',
                           ''{"message":{"content":[1,null,true]}}'',
                           ''{"message":{"content":{"toString":1}}}'',
                           ''{"message":{"content":"lo"}}'']]))
           (new_client local_settings []) (hello_options True) True)
     = [Fetch (snd (chat_begin (new_client local_settings []) (hello_options True))),
        OnChunk (JStr ''Hel''), OnChunk (JArr [JNum 1, JNull, JBool True]),
        OnChunk (JStr ''lo''),
        Settled (Inr (JObj [(''role'', JStr ''assistant''),
                            (''content'', JStr ''Hel1,,truelo'')]))]\<close>
proof -
  let ?chunks = \<open>[join_lines [''{"message":{"content":"Hel"}}'',
                           ''{"message":{"content":[1,null,true]}}'',
                           ''{"message":{"content":{"toString":1}}}'',
                           ''{"message":{"content":"lo"}}'']]\<close>
  let ?fetch = "\<lambda>r :: Request. (Inr (stream_response ?chunks) :: js_error + int Response)"
  let ?c = "new_client local_settings []"
  let ?msg = "JObj [(''role'', JStr ''assistant''), (''content'', JStr ''Hel1,,truelo'')]
                :: int jsval"
  have h1: "stream (hello_options True)" by (simp add: hello_options_def)
  have h2: "last (snd (chat example_platform ?fetch ?c (hello_options True) True))
              = Settled (Inr ?msg)"
    by code_simp
  from chat_stream_callbacks [OF h1 h2]
  obtain response chunks ds
    where r: "?fetch (snd (chat_begin ?c (hello_options True))) = Inr response"
    and b: "body response = Some (chunks, None)"
    and d: "ds = decoded_deltas example_platform (isOllama (settings ?c)) chunks"
    and t: "snd (chat example_platform ?fetch ?c (hello_options True) True) =
             Fetch (snd (chat_begin ?c (hello_options True))) # map OnChunk (map fst ds) @
             [Settled (Inr ?msg)]"
    by blast
  have "chunks = ?chunks" using r b by (auto simp: stream_response_def)
  moreover have "map fst (decoded_deltas example_platform (isOllama (settings ?c)) ?chunks)
                   = [JStr ''Hel'', JArr [JNum 1, JNull, JBool True], JStr ''lo'']"
    by code_simp
  ultimately have "snd (chat example_platform ?fetch ?c (hello_options True) True) =
             [Fetch (snd (chat_begin ?c (hello_options True))),
              OnChunk (JStr ''Hel''), OnChunk (JArr [JNum 1, JNull, JBool True]),
              OnChunk (JStr ''lo''), Settled (Inr ?msg)]"
    using t d by simp
  with h1 h2 show ?thesis by (intro conjI)
qed

text \<open>
  A malformed line between two lines that carry deltas is skipped and the decoding goes
  on, whenever the three lines arrive in chunks of whole lines, grouped in any way.
\<close>

lemma malformed_line_skipped:
  assumes "concat groups = [l1, bad, l3]"
    and "CHR 0x0A \<notin> set l1" and "CHR 0x0A \<notin> set bad" and "CHR 0x0A \<notin> set l3"
    and "trim l1 \<noteq> []" and "trim l3 \<noteq> []"
    and "line_delta P (isOllama s) l1 = Some (d1, s1)"
    and "line_delta P (isOllama s) l3 = Some (d3, s3)"
    and "JSON_parse P (if prefix ''data: '' bad then drop 6 bad else bad) = None"
    and "body response = Some (map join_lines groups, None)"
  shows "processStream P s response True =
           ([d1, d3],
            Inr (JObj [(''role'', JStr ''assistant''), (''content'', JStr (s1 @ s3))]))"
proof -
  have nl: "\<forall>l \<in> set (concat groups). CHR 0x0A \<notin> set l"
    using assms(1-4) by simp
  have b: "line_delta P (isOllama s) bad = None"
    using assms(9) by (simp add: line_delta_def line_chunk_def Let_def)
  have "decoded_deltas P (isOllama s) (map join_lines groups) = [(d1, s1), (d3, s3)]"
    unfolding decoded_deltas_line_aligned [OF nl] assms(1)
    using assms(5-8) b by (simp add: map_filter_simps)
  then show ?thesis
    by (simp add: processStream_deltas [OF assms(10)])
qed

text \<open>
  Claim C5, where the code departs from it. The body holds a line that carries a delta,
  a line that \<open>JSON.parse\<close> rejects, and a second line that carries a delta. Delivered
  in one chunk, the body yields exactly the two deltas. Delivered with the last line cut
  across two chunks, into pieces that are no events on their own, the same body yields
  the first delta only: the decoder splits each chunk into lines by itself, and the
  pieces of the cut line are skipped like the malformed one.
\<close>

theorem malformed_line_and_cut_line:
  assumes "CHR 0x0A \<notin> set l1" and "CHR 0x0A \<notin> set bad" and "CHR 0x0A \<notin> set (a @ b)"
    and "trim l1 \<noteq> []" and "trim (a @ b) \<noteq> []"
    and "line_delta P (isOllama s) l1 = Some (d1, s1)"
    and "line_delta P (isOllama s) (a @ b) = Some (d3, s3)"
    and "JSON_parse P (if prefix ''data: '' bad then drop 6 bad else bad) = None"
    and "line_delta P (isOllama s) a = None"
    and "line_delta P (isOllama s) b = None"
  shows "processStream P s (stream_response [join_lines [l1, bad, a @ b]]) True
           = ([d1, d3],
              Inr (JObj [(''role'', JStr ''assistant''), (''content'', JStr (s1 @ s3))]))
       \<and> processStream P s (stream_response [join_lines [l1, bad] @ a, b @ [CHR 0x0A]]) True
           = ([d1], Inr (JObj [(''role'', JStr ''assistant''), (''content'', JStr s1)]))"
proof -
  have bw: "body (stream_response cs) = Some (cs, None)" for cs
    by (simp add: stream_response_def)
  have bad: "line_delta P (isOllama s) bad = None"
    using assms(8) by (simp add: line_delta_def line_chunk_def Let_def)
  have whole: "chunk_lines (join_lines [l1, bad, a @ b]) =
                 filter (\<lambda>l. trim l \<noteq> []) [l1, bad, a @ b]"
    using assms(1-3) by (intro chunk_lines_join_lines) simp
  have first: "chunk_lines (join_lines [l1, bad] @ a) =
                 filter (\<lambda>l. trim l \<noteq> []) ([l1, bad] @ [a])"
    using assms(1-3) by (intro chunk_lines_join_lines_rest) simp_all
  have second: "chunk_lines (b @ [CHR 0x0A]) = filter (\<lambda>l. trim l \<noteq> []) [b]"
    using chunk_lines_join_lines [of "[b]"] assms(3) by (simp add: join_lines_def)
  have w: "decoded_deltas P (isOllama s) [join_lines [l1, bad, a @ b]] = [(d1, s1), (d3, s3)]"
    using assms(4-7) bad by (simp add: decoded_deltas_def whole map_filter_simps)
  have c: "decoded_deltas P (isOllama s) [join_lines [l1, bad] @ a, b @ [CHR 0x0A]] = [(d1, s1)]"
    using assms(4,6,9,10) bad
    by (simp add: decoded_deltas_def first second map_filter_simps)
  show ?thesis
    using w c by (simp add: processStream_deltas [OF bw])
qed

text \<open>
  Under the OpenAI-compatible dialect: an event, a truncated event, and an event cut
  after \<open>"delta":\<close>.
\<close>

theorem malformed_line_and_cut_line_witness:
  \<open>processStream example_platform openai_settings
      (stream_response
         [join_lines [''data: {"choices":[{"delta":{"content":"Hel"}}]}'',
                      ''data: {"choices":[{"delta":'',
                      ''data: {"choices":[{"delta":{"content":"lo"}}]}'']])
      True
    = ([JStr ''Hel'', JStr ''lo''],
       Inr (JObj [(''role'', JStr ''assistant''), (''content'', JStr ''Hello'')]))
   \<and> processStream example_platform openai_settings
      (stream_response
         [join_lines [''data: {"choices":[{"delta":{"content":"Hel"}}]}'',
                      ''data: {"choices":[{"delta":''] @ ''data: {"choices":[{"delta":'',
          ''{"content":"lo"}}]}'' @ [CHR 0x0A]])
      True
    = ([JStr ''Hel''],
       Inr (JObj [(''role'', JStr ''assistant''), (''content'', JStr ''Hel'')]))\<close>
proof -
  let ?l1 = \<open>''data: {"choices":[{"delta":{"content":"Hel"}}]}''\<close>
  let ?bad = \<open>''data: {"choices":[{"delta":''\<close>
  let ?a = \<open>''data: {"choices":[{"delta":''\<close>
  let ?b = \<open>''{"content":"lo"}}]}''\<close>
  have n1: "CHR 0x0A \<notin> set ?l1" and n2: "CHR 0x0A \<notin> set ?bad"
    and n3: "CHR 0x0A \<notin> set (?a @ ?b)" by simp_all
  have t1: "trim ?l1 \<noteq> []" and t3: "trim (?a @ ?b) \<noteq> []" by code_simp+
  have c1: "line_delta example_platform (isOllama openai_settings) ?l1
              = Some (JStr ''Hel'', ''Hel'')"
    by code_simp
  have c3: "line_delta example_platform (isOllama openai_settings) (?a @ ?b)
              = Some (JStr ''lo'', ''lo'')"
    by code_simp
  have pb: "JSON_parse example_platform
              (if prefix ''data: '' ?bad then drop 6 ?bad else ?bad) = None"
    by code_simp
  have ca: "line_delta example_platform (isOllama openai_settings) ?a = None" by code_simp
  have cb: "line_delta example_platform (isOllama openai_settings) ?b = None" by code_simp
  from malformed_line_and_cut_line [OF n1 n2 n3 t1 t3 c1 c3 pb ca cb]
  show ?thesis by simp
qed

text \<open>
  Claim C2, where the code departs from it. A line that carries a delta, followed by its
  line feed, is delivered once in one chunk and once cut in two pieces, neither of which
  is an event on its own. The decoder splits each chunk into lines by itself, with no
  buffer from one chunk to the next: the unsplit body yields the delta, the split body
  yields nothing.
\<close>

theorem split_line_loses_delta:
  assumes "CHR 0x0A \<notin> set (a @ b)" and "trim (a @ b) \<noteq> []"
    and "line_delta P (isOllama s) (a @ b) = Some (d, str)"
    and "line_delta P (isOllama s) a = None"
    and "line_delta P (isOllama s) b = None"
  shows "processStream P s (stream_response [a @ b @ [CHR 0x0A]]) True
           = ([d], Inr (JObj [(''role'', JStr ''assistant''), (''content'', JStr str)]))
       \<and> processStream P s (stream_response [a, b @ [CHR 0x0A]]) True
           = ([], Inr (JObj [(''role'', JStr ''assistant''), (''content'', JStr [])]))"
proof -
  have one: "chunk_lines (a @ b @ [CHR 0x0A]) = [a @ b]"
    using chunk_lines_join_lines [of "[a @ b]"] assms(1,2) by (simp add: join_lines_def)
  have fst: "chunk_lines a = filter (\<lambda>l. trim l \<noteq> []) [a]"
    using assms(1) by (simp add: chunk_lines_def split_nl_no_nl)
  have snd: "chunk_lines (b @ [CHR 0x0A]) = filter (\<lambda>l. trim l \<noteq> []) [b]"
    using chunk_lines_join_lines [of "[b]"] assms(1) by (simp add: join_lines_def)
  have w: "decoded_deltas P (isOllama s) [a @ b @ [CHR 0x0A]] = [(d, str)]"
    using assms(3) by (simp add: decoded_deltas_def one map_filter_simps)
  have p: "decoded_deltas P (isOllama s) [a, b @ [CHR 0x0A]] = []"
    using assms(4,5) by (simp add: decoded_deltas_def fst snd map_filter_simps)
  have bw: "body (stream_response cs) = Some (cs, None)" for cs
    by (simp add: stream_response_def)
  show ?thesis
    using w p by (simp add: processStream_deltas [OF bw])
qed

text \<open>
  The line \<open>{"message":{"content":"Hel"}}\<close> of the local dialect, cut inside the
  key \<open>content\<close>.
\<close>

theorem split_line_loses_delta_witness:
  \<open>processStream example_platform local_settings
      (stream_response [''{"message":{"content":"Hel"}}'' @ [CHR 0x0A]]) True
      = ([JStr ''Hel''],
         Inr (JObj [(''role'', JStr ''assistant''), (''content'', JStr ''Hel'')]))
   \<and> processStream example_platform local_settings
      (stream_response [''{"message":{"con'', ''tent":"Hel"}}'' @ [CHR 0x0A]]) True
      = ([], Inr (JObj [(''role'', JStr ''assistant''), (''content'', JStr [])]))\<close>
proof -
  let ?a = \<open>''{"message":{"con''\<close>
  let ?b = \<open>''tent":"Hel"}}''\<close>
  have n: "CHR 0x0A \<notin> set (?a @ ?b)" by simp
  have t: "trim (?a @ ?b) \<noteq> []" by code_simp
  have w: "line_delta example_platform (isOllama local_settings) (?a @ ?b)
             = Some (JStr ''Hel'', ''Hel'')"
    by code_simp
  have fa: "line_delta example_platform (isOllama local_settings) ?a = None" by code_simp
  have fb: "line_delta example_platform (isOllama local_settings) ?b = None" by code_simp
  from split_line_loses_delta [OF n t w fa fb]
  show ?thesis by simp
qed

text \<open>
  What does hold of Claim C2: segmentations that keep every line whole, one line per
  chunk or several, give the same calls and the same message.
\<close>

lemma processStream_line_aligned:
  assumes "\<forall>l \<in> set (concat groups). CHR 0x0A \<notin> set l"
    and "concat groups' = concat groups"
  shows "processStream P s (stream_response (map join_lines groups')) onChunk =
         processStream P s (stream_response (map join_lines groups)) onChunk"
proof -
  have bw: "body (stream_response cs) = Some (cs, None)" for cs
    by (simp add: stream_response_def)
  have "\<forall>l \<in> set (concat groups'). CHR 0x0A \<notin> set l" using assms by simp
  then have "decoded_deltas P (isOllama s) (map join_lines groups') =
        decoded_deltas P (isOllama s) (map join_lines groups)"
    using assms by (simp add: decoded_deltas_line_aligned)
  then show ?thesis by (simp add: processStream_deltas [OF bw])
qed

section \<open>The chat call\<close>

text \<open>
  After the request is issued, nothing calls the transport again.
\<close>

lemma transport_calls_settle:
  "transport_calls (chat_settle P c options onChunk fetched) = []"
proof -
  have m: "transport_calls (map OnChunk xs @ [Settled r]) = []" for xs r
    by (induction xs) simp_all
  show ?thesis
    by (auto simp: chat_settle_def m split: sum.splits prod.splits)
qed

text \<open>
  Claim C3, as amended: \<open>chat\<close> checks neither the model identifier nor the message
  list. Every call, also one with an empty model or no message, hands exactly one request
  to the transport, whose body carries the model and the messages as they were given.
\<close>

theorem chat_validates_nothing:
  "transport_calls (snd (chat P fetch c options onChunk)) = [snd (chat_begin c options)]
   \<and> payload (snd (chat_begin c options)) =
       Some ((if isOllama (settings c) then OllamaBody else OpenAIBody)
               (ChatOptions.model options) (ChatOptions.messages options) (stream options)
               (temperature options) (maxTokens options))"
  by (simp add: chat_def chat_begin_def Let_def transport_calls_settle)

text \<open>
  Claim C3 as stated fails: with an empty model identifier, and with an empty message
  list, the request is sent and the call resolves to the reply of the server.
\<close>

theorem chat_empty_request_sent:
  "snd (chat example_platform (\<lambda>r. Inr (whole_response (JObj [(''message'', hello_reply)])))
         (new_client local_settings [])
         \<lparr>model = [], messages = [\<lparr>role = User, content = ''hi''\<rparr>], stream = False,
          temperature = None, maxTokens = None\<rparr> False)
   = [Fetch \<lparr>url = ''http://localhost:11434/api/chat'', http_method = ''POST'',
             headers = [(''Content-Type'', ''application/json'')],
             payload = Some (OllamaBody [] [\<lparr>role = User, content = ''hi''\<rparr>] False None None),
             signal = Some 0\<rparr>,
      Settled (Inr hello_reply)]
   \<and> snd (chat example_platform (\<lambda>r. Inr (whole_response (JObj [(''message'', hello_reply)])))
         (new_client local_settings [])
         \<lparr>model = ''llama3'', messages = [], stream = False,
          temperature = None, maxTokens = None\<rparr> False)
   = [Fetch \<lparr>url = ''http://localhost:11434/api/chat'', http_method = ''POST'',
             headers = [(''Content-Type'', ''application/json'')],
             payload = Some (OllamaBody ''llama3'' [] False None None),
             signal = Some 0\<rparr>,
      Settled (Inr hello_reply)]"
  by code_simp

text \<open>
  Claim C4. A call without streaming that receives a success response whose payload is
  an object resolves, under the local dialect, to the value of the payload's
  \<open>message\<close> field as it is, and under the OpenAI-compatible dialect, when
  \<open>choices[0].message\<close> is an object with a \<open>content\<close> field, to the message of role
  \<open>assistant\<close> with that content unchanged.
\<close>

theorem chat_whole_response:
  assumes "fetch (snd (chat_begin c options)) = Inr response"
    and "ok response" and "\<not> stream options"
    and "json response = Inr (JObj kvs)"
  shows "(isOllama (settings c) \<and> map_of kvs ''message'' = Some m \<longrightarrow>
            snd (chat P fetch c options onChunk) =
              [Fetch (snd (chat_begin c options)), Settled (Inr m)])
       \<and> (\<not> isOllama (settings c) \<and>
            map_of kvs ''choices'' = Some (JArr (JObj ckvs # others)) \<and>
            map_of ckvs ''message'' = Some (JObj mkvs) \<and>
            map_of mkvs ''content'' = Some v \<longrightarrow>
            snd (chat P fetch c options onChunk) =
              [Fetch (snd (chat_begin c options)),
               Settled (Inr (JObj [(''role'', JStr ''assistant''), (''content'', v)]))])"
proof -
  obtain c1 request where b: "chat_begin c options = (c1, request)"
    by (cases "chat_begin c options")
  have s1: "settings c1 = settings c" using chat_begin_settings [of c options] b by simp
  have t: "snd (chat P fetch c options onChunk) =
             [Fetch request, Settled (decode_whole (settings c) response)]"
    using assms(1-3) by (simp add: chat_def b chat_settle_def s1)
  show ?thesis
    using assms(4)
    by (auto simp: t b decode_whole_def and_then_def)
qed

text \<open>
  One reply per dialect.
\<close>

theorem chat_whole_response_witness:
  "snd (chat example_platform (\<lambda>r. Inr (whole_response (JObj [(''message'', hello_reply)])))
         (new_client local_settings []) (hello_options False) False)
     = [Fetch (snd (chat_begin (new_client local_settings []) (hello_options False))),
        Settled (Inr hello_reply)]
   \<and> snd (chat example_platform
         (\<lambda>r. Inr (whole_response
            (JObj [(''choices'', JArr [JObj [(''message'', hello_reply)]])])))
         (new_client openai_settings []) (hello_options False) False)
     = [Fetch (snd (chat_begin (new_client openai_settings []) (hello_options False))),
        Settled (Inr (JObj [(''role'', JStr ''assistant''), (''content'', JStr ''Hello'')]))]"
proof -
  let ?d1 = "[(''message'', hello_reply)]"
  let ?f1 = "\<lambda>r :: Request. (Inr (whole_response (JObj ?d1)) :: js_error + int Response)"
  let ?d2 = "[(''choices'', JArr [JObj [(''message'', hello_reply)]])]"
  let ?f2 = "\<lambda>r :: Request. (Inr (whole_response (JObj ?d2)) :: js_error + int Response)"
  have ns: "\<not> stream (hello_options False)" by (simp add: hello_options_def)
  have ok: "ok (whole_response d)" and js: "json (whole_response d) = Inr d" for d
    by (simp_all add: whole_response_def)
  have l: "isOllama (settings (new_client local_settings []))" by code_simp
  have o: "\<not> isOllama (settings (new_client openai_settings []))" by code_simp
  have a: "snd (chat example_platform ?f1 (new_client local_settings []) (hello_options False) False)
     = [Fetch (snd (chat_begin (new_client local_settings []) (hello_options False))),
        Settled (Inr hello_reply)]"
    using chat_whole_response [of ?f1 "new_client local_settings []" "hello_options False"
        "whole_response (JObj ?d1)" ?d1 hello_reply example_platform False, OF refl ok ns js] l
    by simp
  have b: "snd (chat example_platform ?f2 (new_client openai_settings []) (hello_options False) False)
     = [Fetch (snd (chat_begin (new_client openai_settings []) (hello_options False))),
        Settled (Inr (JObj [(''role'', JStr ''assistant''), (''content'', JStr ''Hello'')]))]"
    using chat_whole_response [of ?f2 "new_client openai_settings []" "hello_options False"
        "whole_response (JObj ?d2)" ?d2 _ example_platform False "[(''message'', hello_reply)]" "[]"
        "[(''role'', JStr ''assistant''), (''content'', JStr ''Hello'')]" "JStr ''Hello''",
        OF refl ok ns js] o
    by (simp add: hello_reply_def)
  from a b show ?thesis by (rule conjI)
qed

text \<open>
  Claim C7, as amended: every call of \<open>chat\<close> allocates a new AbortController, at an
  address that was not in use, not aborted, passes its signal to the transport and stores
  it as the client's handle in place of the previous one. The handle stored is still this
  one when the call has settled, however it settles: it is not set back to the absent
  state. \<open>abort\<close> never changes the settings or the handle. On a client that holds no
  handle, one that has made no call, whatever its settings, it changes nothing; after a
  call has settled it marks the controller of that call, which is still stored, as
  aborted, and leaves every earlier controller as it was.
\<close>

theorem chat_allocates_handle:
  "abortController (fst (chat P fetch c options onChunk)) = Some (length (heap c))
   \<and> heap (fst (chat P fetch c options onChunk)) = heap c @ [False]
   \<and> signal (snd (chat_begin c options)) = Some (length (heap c))
   \<and> settings (abort c) = settings c
   \<and> abortController (abort c) = abortController c
   \<and> abort (new_client s h) = new_client s h
   \<and> abort (fst (chat P fetch c options onChunk)) =
       (fst (chat P fetch c options onChunk))\<lparr>heap := heap c @ [True]\<rparr>"
proof -
  have a: "settings (abort c) = settings c \<and> abortController (abort c) = abortController c"
    by (cases "abortController c") (simp_all add: abort_def)
  have b: "abort (new_client s h) = new_client s h"
    by (simp add: abort_def new_client_def)
  have c: "fst (chat P fetch c options onChunk) =
             c\<lparr>abortController := Some (length (heap c)), heap := heap c @ [False]\<rparr>"
    by (simp add: chat_def chat_begin_def Let_def)
  have d: "signal (snd (chat_begin c options)) = Some (length (heap c))"
    by (simp add: chat_begin_def Let_def)
  show ?thesis
    using a b d by (simp add: c abort_def)
qed

text \<open>
  Claim C7 as stated fails: after a call that resolved and after one that was rejected,
  the handle is still set; and \<open>abort\<close>, called after the call has resolved, when no
  call is in flight, is no no-op: it aborts the controller of the settled call.
\<close>

theorem chat_keeps_handle:
  "abortController (fst (chat example_platform
       (\<lambda>r. Inr (whole_response (JObj [(''message'', hello_reply)])))
       (new_client local_settings []) (hello_options False) False)) = Some 0
   \<and> abortController (fst (chat example_platform (\<lambda>r. Inl NetworkError)
       (new_client local_settings []) (hello_options False) False)) = Some 0
   \<and> abortController (abort (fst (chat example_platform (\<lambda>r. Inl AbortError)
       (new_client local_settings []) (hello_options False) False))) = Some 0
   \<and> heap (fst (chat example_platform
       (\<lambda>r. Inr (whole_response (JObj [(''message'', hello_reply)])))
       (new_client local_settings []) (hello_options False) False)) = [False]
   \<and> heap (abort (fst (chat example_platform
       (\<lambda>r. Inr (whole_response (JObj [(''message'', hello_reply)])))
       (new_client local_settings []) (hello_options False) False))) = [True]"
  by code_simp

text \<open>
  What does hold of Claim C9: the request of a call (endpoint, headers, body, signal) is
  built from the configuration in force when the call began, whatever
  \<open>updateSettings\<close> does while the request is pending.
\<close>

lemma chat_during_update_request:
  "hd (snd (chat_during_update P fetch c options onChunk s')) =
     Fetch (snd (chat_begin c options))
   \<and> snd (chat_begin c options) =
     \<lparr>url = getChatEndpoint (settings c), http_method = ''POST'',
      headers = request_headers (settings c),
      payload = Some ((if isOllama (settings c) then OllamaBody else OpenAIBody)
               (ChatOptions.model options) (ChatOptions.messages options) (stream options)
               (temperature options) (maxTokens options)),
      signal = Some (length (heap c))\<rparr>"
  by (simp add: chat_during_update_def chat_begin_def Let_def)

text \<open>
  Claim C9, where the code departs from it. A call without streaming begins under the
  local dialect and the server answers in that dialect. With no update the call resolves
  to the message. When \<open>updateSettings\<close> installs an OpenAI-compatible endpoint while the
  request is pending, the same request is sent, but the answer is decoded under the new
  dialect: \<open>data.choices\<close> is undefined and the call is rejected with a TypeError.
\<close>

theorem update_during_call_changes_decoding:
  "snd (chat example_platform (\<lambda>r. Inr (whole_response (JObj [(''message'', hello_reply)])))
         (new_client local_settings []) (hello_options False) False)
     = [Fetch (snd (chat_begin (new_client local_settings []) (hello_options False))),
        Settled (Inr hello_reply)]
   \<and> snd (chat_during_update example_platform
         (\<lambda>r. Inr (whole_response (JObj [(''message'', hello_reply)])))
         (new_client local_settings []) (hello_options False) False openai_settings)
     = [Fetch (snd (chat_begin (new_client local_settings []) (hello_options False))),
        Settled (Inl TypeError)]"
  by code_simp

text \<open>
  The same for a streamed call: the dialect is read when the stream starts, after the
  request has settled, and the delta of the local dialect is lost.
\<close>

theorem update_during_stream_changes_decoding:
  \<open>snd (chat example_platform
         (\<lambda>r. Inr (stream_response [join_lines [''{"message":{"content":"Hel"}}'']]))
         (new_client local_settings []) (hello_options True) True)
     = [Fetch (snd (chat_begin (new_client local_settings []) (hello_options True))),
        OnChunk (JStr ''Hel''), Settled (Inr (JObj [(''role'', JStr ''assistant''), (''content'', JStr ''Hel'')]))]
   \<and> snd (chat_during_update example_platform
         (\<lambda>r. Inr (stream_response [join_lines [''{"message":{"content":"Hel"}}'']]))
         (new_client local_settings []) (hello_options True) True openai_settings)
     = [Fetch (snd (chat_begin (new_client local_settings []) (hello_options True))),
        Settled (Inr (JObj [(''role'', JStr ''assistant''), (''content'', JStr [])]))]\<close>
  by code_simp

text \<open>
  Model listing: the whole body of \<open>fetchModels\<close> stands in a \<open>try\<close> block.
\<close>

lemma fetchModels_resolves: "\<exists>v. fetchModels P fetch c = Inr v"
  by (simp add: fetchModels_def split: sum.splits)

lemma model_descriptor_shape:
  assumes "model_descriptor P m = Inr d"
  shows "\<exists>name modified.
           d = JObj [(''name'', name), (''modified_at'', JStr modified), (''size'', JNum 0)]"
  using assms
  by (auto simp: model_descriptor_def and_then_def split: sum.splits if_splits)

lemma map_result_all:
  assumes "map_result f xs = Inr ys" and "\<And>x y. f x = Inr y \<Longrightarrow> Q y"
  shows "\<forall>y \<in> set ys. Q y"
  using assms(1)
proof (induction xs arbitrary: ys)
  case Nil
  then show ?case by simp
next
  case (Cons x xs)
  then obtain y ys' where "f x = Inr y" "map_result f xs = Inr ys'" "ys = y # ys'"
    by (auto simp: and_then_def split: sum.splits)
  then show ?case using Cons.IH assms(2) by auto
qed

text \<open>
  Claim C6, as amended: whatever the transport does, \<open>fetchModels\<close> resolves and never
  rejects. It resolves to the empty collection when the transport rejects, when the
  status is not a success and when the body is not JSON. Under the OpenAI-compatible
  dialect it always resolves to a collection of model descriptors, each of the form
  \<open>{name, modified_at, size: 0}\<close> with a string for \<open>modified_at\<close>. Under the local
  dialect, for a payload of any shape, it resolves to the value of the payload's
  \<open>models\<close> field as it is when the payload is an object and that value is truthy, and
  to the empty collection for every other payload.
\<close>

theorem fetchModels_never_rejects:
  "(\<exists>v. fetchModels P fetch c = Inr v)
   \<and> ((\<exists>e. fetch (models_request (settings c)) = Inl e) \<longrightarrow>
        fetchModels P fetch c = Inr (JArr []))
   \<and> ((\<exists>r. fetch (models_request (settings c)) = Inr r \<and>
             (\<not> ok r \<or> (\<exists>e. json r = Inl e))) \<longrightarrow>
        fetchModels P fetch c = Inr (JArr []))
   \<and> (\<not> isOllama (settings c) \<longrightarrow>
        (\<exists>xs. fetchModels P fetch c = Inr (JArr xs) \<and>
              (\<forall>x \<in> set xs. \<exists>name modified.
                 x = JObj [(''name'', name), (''modified_at'', JStr modified),
                           (''size'', JNum 0)])))
   \<and> (isOllama (settings c) \<longrightarrow>
        (\<forall>r data. fetch (models_request (settings c)) = Inr r \<and> ok r \<and>
                  json r = Inr data \<longrightarrow>
           fetchModels P fetch c =
             Inr (case data of
                    JObj kvs \<Rightarrow>
                      (case map_of kvs ''models'' of
                         None \<Rightarrow> JArr []
                       | Some ms \<Rightarrow> if truthy P ms then ms else JArr [])
                  | _ \<Rightarrow> JArr [])))"
proof (intro conjI)
  show "\<exists>v. fetchModels P fetch c = Inr v" by (rule fetchModels_resolves)
  show "(\<exists>e. fetch (models_request (settings c)) = Inl e) \<longrightarrow>
        fetchModels P fetch c = Inr (JArr [])"
    by (auto simp: fetchModels_def fetchModels_try_def and_then_def)
  show "(\<exists>r. fetch (models_request (settings c)) = Inr r \<and>
             (\<not> ok r \<or> (\<exists>e. json r = Inl e))) \<longrightarrow>
        fetchModels P fetch c = Inr (JArr [])"
    by (auto simp: fetchModels_def fetchModels_try_def and_then_def)
  show "\<not> isOllama (settings c) \<longrightarrow>
        (\<exists>xs. fetchModels P fetch c = Inr (JArr xs) \<and>
              (\<forall>x \<in> set xs. \<exists>name modified.
                 x = JObj [(''name'', name), (''modified_at'', JStr modified),
                           (''size'', JNum 0)]))"
  proof
    assume o: "\<not> isOllama (settings c)"
    let ?Q = "\<lambda>x :: 'a jsval. \<exists>name modified.
                 x = JObj [(''name'', name), (''modified_at'', JStr modified),
                           (''size'', JNum 0)]"
    show "\<exists>xs. fetchModels P fetch c = Inr (JArr xs) \<and> (\<forall>x \<in> set xs. ?Q x)"
    proof (cases "fetchModels_try P fetch c")
      case (Inl e)
      then show ?thesis by (simp add: fetchModels_def)
    next
      case (Inr v)
      have "v = JArr [] \<or>
            (\<exists>xs ds. map_result (model_descriptor P) xs = Inr ds \<and> v = JArr ds)"
        using Inr o
        by (auto simp: fetchModels_try_def and_then_def
                 split: sum.splits if_splits jsval.splits)
      then show ?thesis
      proof
        assume "v = JArr []"
        then show ?thesis using Inr by (simp add: fetchModels_def)
      next
        assume "\<exists>xs ds. map_result (model_descriptor P) xs = Inr ds \<and> v = JArr ds"
        then obtain xs ds where m: "map_result (model_descriptor P) xs = Inr ds"
          and v: "v = JArr ds" by blast
        have "\<forall>d \<in> set ds. ?Q d"
          using m by (rule map_result_all) (rule model_descriptor_shape)
        then show ?thesis using Inr v by (auto simp: fetchModels_def)
      qed
    qed
  qed
  show "isOllama (settings c) \<longrightarrow>
        (\<forall>r data. fetch (models_request (settings c)) = Inr r \<and> ok r \<and>
                  json r = Inr data \<longrightarrow>
           fetchModels P fetch c =
             Inr (case data of
                    JObj kvs \<Rightarrow>
                      (case map_of kvs ''models'' of
                         None \<Rightarrow> JArr []
                       | Some ms \<Rightarrow> if truthy P ms then ms else JArr [])
                  | _ \<Rightarrow> JArr []))"
  proof (intro impI allI)
    fix r data
    assume l: "isOllama (settings c)"
      and h: "fetch (models_request (settings c)) = Inr r \<and> ok r \<and> json r = Inr data"
    show "fetchModels P fetch c =
             Inr (case data of
                    JObj kvs \<Rightarrow>
                      (case map_of kvs ''models'' of
                         None \<Rightarrow> JArr []
                       | Some ms \<Rightarrow> if truthy P ms then ms else JArr [])
                  | _ \<Rightarrow> JArr [])"
      using l h
      by (cases data)
         (auto simp: fetchModels_def fetchModels_try_def and_then_def js_or_def
               split: option.splits)
  qed
qed

text \<open>
  A transport that always rejects, under each dialect; under the local dialect the
  payloads \<open>null\<close> and \<open>{"models": []}\<close>; under the OpenAI-compatible dialect the
  payload \<open>{"data": [{"id": "gpt-4o"}]}\<close>.
\<close>

theorem fetchModels_never_rejects_witness:
  "fetchModels example_platform (\<lambda>r. Inl NetworkError) (new_client local_settings [])
     = Inr (JArr [])
   \<and> fetchModels example_platform (\<lambda>r. Inl NetworkError) (new_client openai_settings [])
     = Inr (JArr [])
   \<and> fetchModels example_platform (\<lambda>r. Inr (whole_response JNull))
       (new_client local_settings [])
     = Inr (JArr [])
   \<and> fetchModels example_platform
       (\<lambda>r. Inr (whole_response (JObj [(''models'', JArr [])])))
       (new_client local_settings [])
     = Inr (JArr [])
   \<and> fetchModels example_platform
       (\<lambda>r. Inr (whole_response (JObj [(''data'', JArr [JObj [(''id'', JStr ''gpt-4o'')]])])))
       (new_client openai_settings [])
     = Inr (JArr [JObj [(''name'', JStr ''gpt-4o''), (''modified_at'', JStr []),
                        (''size'', JNum 0)]])"
proof -
  let ?rej = "\<lambda>r :: Request. (Inl NetworkError :: js_error + int Response)"
  let ?l = "new_client local_settings []"
  let ?o = "new_client openai_settings []"
  have l: "isOllama (settings ?l)" by code_simp
  have a: "fetchModels example_platform ?rej ?l = Inr (JArr [])"
    using fetchModels_never_rejects [of example_platform ?rej ?l] by simp
  have b: "fetchModels example_platform ?rej ?o = Inr (JArr [])"
    using fetchModels_never_rejects [of example_platform ?rej ?o] by simp
  have c: "fetchModels example_platform (\<lambda>r. Inr (whole_response JNull)) ?l = Inr (JArr [])"
    using fetchModels_never_rejects
            [of example_platform "\<lambda>r. Inr (whole_response JNull)" ?l] l
    by (simp add: whole_response_def)
  have d: "fetchModels example_platform
             (\<lambda>r. Inr (whole_response (JObj [(''models'', JArr [])]))) ?l = Inr (JArr [])"
    using fetchModels_never_rejects
            [of example_platform "\<lambda>r. Inr (whole_response (JObj [(''models'', JArr [])]))" ?l] l
    by (simp add: whole_response_def)
  have e: "fetchModels example_platform
       (\<lambda>r. Inr (whole_response (JObj [(''data'', JArr [JObj [(''id'', JStr ''gpt-4o'')]])]))) ?o
     = Inr (JArr [JObj [(''name'', JStr ''gpt-4o''), (''modified_at'', JStr []),
                        (''size'', JNum 0)]])"
    by code_simp
  from a b c d e show ?thesis by (intro conjI)
qed

text \<open>
  Claim C6 as stated fails: under the local dialect the payload
  \<open>{"models": "none"}\<close> makes \<open>fetchModels\<close> resolve to the string \<open>none\<close>, which is
  no collection of model descriptors.
\<close>

theorem fetchModels_unvalidated_payload:
  "fetchModels example_platform
     (\<lambda>r. Inr (whole_response (JObj [(''models'', JStr ''none'')])))
     (new_client local_settings [])
   = Inr (JStr ''none'')"
  by code_simp

section \<open>Conversation context\<close>

lemma getConversationContext_unknown:
  "conversations nid = None \<Longrightarrow> getConversationContext conversations nid cap = []"
  by (simp add: getConversationContext_def getMessages_def slice_from_def)

lemma getConversationContext_positive_cap:
  assumes "conversations nid = Some entry" and "1 \<le> cap"
  shows "getConversationContext conversations nid cap =
           (if length (messages entry) \<le> nat cap then messages entry
            else drop (length (messages entry) - nat cap) (messages entry))"
proof -
  have m: "getMessages conversations nid = messages entry"
    using assms(1) by (simp add: getMessages_def)
  show ?thesis
  proof (cases "int (length (messages entry)) \<le> cap")
    case True
    then show ?thesis using assms(2) by (simp add: getConversationContext_def m)
  next
    case False
    then have k: "nat (int (length (messages entry)) - cap) = length (messages entry) - nat cap"
      and n: "\<not> length (messages entry) \<le> nat cap"
      using assms(2) by linarith+
    show ?thesis
      using False assms(2) k n
      by (simp add: getConversationContext_def m slice_from_def Let_def max_def)
  qed
qed

lemma getConversationContext_default:
  assumes "conversations nid = Some entry"
  shows "getConversationContext conversations nid default_maxMessages =
           (if length (messages entry) \<le> 20 then messages entry
            else drop (length (messages entry) - 20) (messages entry))"
  using assms getConversationContext_positive_cap [of conversations nid entry default_maxMessages]
  by (simp add: default_maxMessages_def)

text \<open>
  Claim C10, at the cap \<open>0\<close>: a stored conversation of one message is longer than the
  cap, and \<open>slice(-0)\<close> is \<open>slice(0)\<close>, so the whole conversation is returned where the
  claim promises the last \<open>0\<close> messages. For every cap of at least \<open>1\<close> the claim holds
  (\<open>getConversationContext_positive_cap\<close>, \<open>getConversationContext_unknown\<close>), so for
  the default cap of 20 as well.
\<close>

theorem getConversationContext_cap_zero:
  "getConversationContext
     [''note'' \<mapsto> \<lparr>noteId = ''note'', messages = [\<lparr>role = User, content = ''hi''\<rparr>],
                  createdAt = 0, updatedAt = 0\<rparr>] ''note'' 0
   = [\<lparr>role = User, content = ''hi''\<rparr>]"
  by (simp add: getConversationContext_def getMessages_def slice_from_def)

end
